theory Spec2Isabelle
  imports Complex_Main
begin

section \<open>Time utilities (utils/time.ts and the host Date object)\<close>

text \<open>
  A JavaScript \<^verbatim>\<open>Date\<close> is modelled by its local wall-clock reading in milliseconds,
  an \<^typ>\<open>int\<close>: the readings of one local calendar day span 86400000 ms, whatever the
  time zone. Where the code reads the UTC instant of a date (\<^verbatim>\<open>getTime()\<close>, in useStreak),
  the host's time zone is a parameter, and a day with a daylight-saving shift lasts 23 or
  25 hours. The timestamp strings the hooks store
  (\<^verbatim>\<open>scheduledTime\<close>, \<^verbatim>\<open>takenTime\<close>, \<^verbatim>\<open>snoozedUntil\<close>) are modelled by the
  \<^verbatim>\<open>Date\<close> that \<^verbatim>\<open>new Date(string)\<close> reads back from them.
\<close>

type_synonym date = int

definition msPerDay :: int where
  "msPerDay = 1000 * 60 * 60 * 24"

text \<open>The number of the local calendar day a date falls on.\<close>

definition dayOf :: "date \<Rightarrow> int" where
  "dayOf d = d div msPerDay"

text \<open>\<^verbatim>\<open>startOfDay(d)\<close> of date-fns and \<^verbatim>\<open>d.setHours(0, 0, 0, 0)\<close>: local midnight.\<close>

definition startOfDay :: "date \<Rightarrow> date" where
  "startOfDay d = dayOf d * msPerDay"

text \<open>\<^verbatim>\<open>differenceInDays(l, r)\<close> of date-fns: the number of full days, truncated towards zero.\<close>

definition differenceInDays :: "date \<Rightarrow> date \<Rightarrow> int" where
  "differenceInDays l r =
     (if r \<le> l then (l - r) div msPerDay else - ((r - l) div msPerDay))"

text \<open>\<^verbatim>\<open>d.setHours(h, m, s, ms)\<close>: the local day of \<open>d\<close> with the given time fields
  (fields out of range roll over, as in JavaScript).\<close>

definition setHours :: "date \<Rightarrow> int \<Rightarrow> int \<Rightarrow> int \<Rightarrow> int \<Rightarrow> date" where
  "setHours d h m s ms = startOfDay d + h * (1000 * 60 * 60) + m * (1000 * 60) + s * 1000 + ms"

text \<open>\<^verbatim>\<open>d.setMinutes(d.getMinutes() + n)\<close>.\<close>

definition addMinutes :: "date \<Rightarrow> int \<Rightarrow> date" where
  "addMinutes d n = d + n * (1000 * 60)"

text \<open>\<^verbatim>\<open>formatDateTime\<close> writes \<^verbatim>\<open>yyyy-MM-dd HH:mm:ss\<close>: the milliseconds are dropped,
  so the stored string reads back as the date truncated to the second.\<close>

definition formatDateTime :: "date \<Rightarrow> date" where
  "formatDateTime d = d - d mod 1000"

text \<open>\<^verbatim>\<open>toDateString()\<close> prints the local calendar day; any other string (such as the
  initial marker \<^verbatim>\<open>''\<close>) is kept as it is.\<close>

datatype dateString = DateString int | OtherString string

definition toDateString :: "date \<Rightarrow> dateString" where
  "toDateString d = DateString (dayOf d)"

text \<open>
  \<^verbatim>\<open>d.getTime()\<close> is the UTC instant of \<open>d\<close>. The host's time zone is a parameter
  \<open>zone\<close>: \<open>zone d\<close> is the offset of local time from UTC, in milliseconds, in force at
  the local reading \<open>d\<close> (local = UTC + offset). A zone with daylight saving takes two
  values, so two local midnights need not be a whole number of days apart.
\<close>

definition getTime :: "(date \<Rightarrow> int) \<Rightarrow> date \<Rightarrow> int" where
  "getTime zone d = d - zone d"

text \<open>A time of day \<^verbatim>\<open>"HH:mm"\<close>, held as the two numbers that
  \<^verbatim>\<open>timeStr.split(':').map(Number)\<close> yields.\<close>

record TimeOfDay =
  hours :: nat
  minutes :: nat

text \<open>\<^verbatim>\<open>parseTimeString(timeStr)\<close>, with the clock reading \<open>now\<close> made explicit.\<close>

definition parseTimeString :: "TimeOfDay \<Rightarrow> date \<Rightarrow> date" where
  "parseTimeString timeStr now = setHours now (int (hours timeStr)) (int (minutes timeStr)) 0 0"

section \<open>Data model (types)\<close>

datatype status = Taken | Missed | Snoozed | Pending

record Pill =
  id_pill :: string
  name_pill :: string
  dosage :: string
  times_pill :: "TimeOfDay list"
  color_pill :: "string option"
  notes_pill :: "string option"

record PillLog =
  id_log :: string
  pillId :: string
  scheduledTime :: date
  takenTime :: "date option"
  status :: status
  snoozedUntil :: "date option"

record StreakData =
  current :: nat
  best :: nat
  lastTaken :: "date option"

section \<open>The schedule hook (hooks/usePillSchedule.ts)\<close>

text \<open>The three values the hook keeps through \<^verbatim>\<open>useLocalStorage\<close>.\<close>

record schedule =
  pills :: "Pill list"
  logs :: "PillLog list"
  lastScheduleDate :: dateString

text \<open>
  The daily generation effect. \<open>uuids k\<close> is the value of the \<open>k\<close>-th call of
  \<^verbatim>\<open>uuidv4()\<close> in the pass and \<open>now\<close> the clock. The nested \<^verbatim>\<open>forEach\<close> pushes one
  log per pill and time.
\<close>

definition pushLog :: "(nat \<Rightarrow> string) \<Rightarrow> date \<Rightarrow> Pill \<Rightarrow> TimeOfDay \<Rightarrow> PillLog list \<Rightarrow> PillLog list" where
  "pushLog uuids now pill timeStr newLogs =
     newLogs @
       [\<lparr>id_log = uuids (length newLogs),
         pillId = id_pill pill,
         scheduledTime = formatDateTime (parseTimeString timeStr now),
         takenTime = None,
         status = Pending,
         snoozedUntil = None\<rparr>]"

definition newDailyLogs :: "(nat \<Rightarrow> string) \<Rightarrow> date \<Rightarrow> Pill list \<Rightarrow> PillLog list" where
  "newDailyLogs uuids now ps =
     fold (\<lambda>pill newLogs. fold (pushLog uuids now pill) (times_pill pill) newLogs) ps []"

definition generateDailyLogs :: "(nat \<Rightarrow> string) \<Rightarrow> date \<Rightarrow> schedule \<Rightarrow> schedule" where
  "generateDailyLogs uuids now s =
     (let today = toDateString now in
      if lastScheduleDate s \<noteq> today
      then s\<lparr>logs := logs s @ newDailyLogs uuids now (pills s), lastScheduleDate := today\<rparr>
      else s)"

definition deletePill :: "string \<Rightarrow> schedule \<Rightarrow> schedule" where
  "deletePill i s =
     s\<lparr>pills := filter (\<lambda>pill. id_pill pill \<noteq> i) (pills s),
       logs := filter (\<lambda>log. pillId log \<noteq> i) (logs s)\<rparr>"

definition markPillTaken :: "date \<Rightarrow> string \<Rightarrow> PillLog list \<Rightarrow> PillLog list" where
  "markPillTaken now logId prev =
     map (\<lambda>log. if id_log log = logId
                then log\<lparr>status := Taken, takenTime := Some (formatDateTime now)\<rparr>
                else log) prev"

definition snoozePill :: "date \<Rightarrow> string \<Rightarrow> int \<Rightarrow> PillLog list \<Rightarrow> PillLog list" where
  "snoozePill now logId snoozeMinutes prev =
     (let snoozeUntil = addMinutes now snoozeMinutes in
      map (\<lambda>log. if id_log log = logId
                 then log\<lparr>status := Snoozed, snoozedUntil := Some (formatDateTime snoozeUntil)\<rparr>
                 else log) prev)"

definition markPillMissed :: "string \<Rightarrow> PillLog list \<Rightarrow> PillLog list" where
  "markPillMissed logId prev =
     map (\<lambda>log. if id_log log = logId then log\<lparr>status := Missed\<rparr> else log) prev"

text \<open>One user action on the log list, and a sequence of them.\<close>

datatype mutation =
  MarkTaken date string
| Snooze date string int
| MarkMissed string

fun applyMutation :: "mutation \<Rightarrow> PillLog list \<Rightarrow> PillLog list" where
  "applyMutation (MarkTaken now logId) prev = markPillTaken now logId prev"
| "applyMutation (Snooze now logId snoozeMinutes) prev = snoozePill now logId snoozeMinutes prev"
| "applyMutation (MarkMissed logId) prev = markPillMissed logId prev"

definition applyMutations :: "mutation list \<Rightarrow> PillLog list \<Rightarrow> PillLog list" where
  "applyMutations ms prev = fold applyMutation ms prev"

section \<open>Streaks\<close>

subsection \<open>calculateStreak (utils/time.ts)\<close>

text \<open>
  \<^verbatim>\<open>[...logs].filter(log => log.status === 'taken' && log.takenTime).sort((a, b) => b - a)\<close>
  on the taken times: the array sort is stable, and so is \<^const>\<open>sort_key\<close>. Every log that
  passes the filter has a \<^verbatim>\<open>takenTime\<close>, which is what \<^verbatim>\<open>log.takenTime!\<close> relies on.
\<close>

definition sortedTaken :: "PillLog list \<Rightarrow> PillLog list" where
  "sortedTaken ls =
     sort_key (\<lambda>log. - the (takenTime log))
       (filter (\<lambda>log. status log = Taken \<and> takenTime log \<noteq> None) ls)"

text \<open>The \<^verbatim>\<open>for\<close> loop over \<^verbatim>\<open>sortedLogs[1..]\<close>; \<^verbatim>\<open>break\<close> returns the streak so far.\<close>

fun streakLoop :: "date \<Rightarrow> nat \<Rightarrow> PillLog list \<Rightarrow> nat" where
  "streakLoop currentDay streak [] = streak"
| "streakLoop currentDay streak (entry # rest) =
     (let logDay = startOfDay (the (takenTime entry));
          dayDiff = differenceInDays currentDay logDay in
      if dayDiff = 1 then streakLoop logDay (streak + 1) rest
      else if dayDiff > 1 then streak
      else streakLoop currentDay streak rest)"

definition calculateStreak :: "PillLog list \<Rightarrow> nat" where
  "calculateStreak ls =
     (if ls = [] then 0
      else case sortedTaken ls of
             [] \<Rightarrow> 0
           | first # rest \<Rightarrow> streakLoop (startOfDay (the (takenTime first))) 1 rest)"

subsection \<open>streakData of usePillSchedule\<close>

definition lastTakenOf :: "PillLog list \<Rightarrow> date option" where
  "lastTakenOf ls = (case sortedTaken ls of [] \<Rightarrow> None | entry # rest \<Rightarrow> takenTime entry)"

definition streakData :: "PillLog list \<Rightarrow> StreakData" where
  "streakData ls =
     (let currentStreak = calculateStreak ls;
          arr = filter (\<lambda>log. status log = Taken) ls;
          allStreaks = map (\<lambda>idx. calculateStreak (take (idx + 1) arr)) [0..<length arr];
          bestStreak = fold max (allStreaks @ [0]) currentStreak
      in \<lparr>current = currentStreak, best = bestStreak, lastTaken = lastTakenOf ls\<rparr>)"

subsection \<open>useStreak (hooks/useStreak.ts)\<close>

record streakVars =
  tempStreak :: nat
  bestStreak :: nat
  lastDate :: "date option"

text \<open>The body of \<^verbatim>\<open>for (const log of sortedLogs)\<close>; the day difference is the floor of
  the difference of the two instants over 86400000.\<close>

definition streakStep :: "(date \<Rightarrow> int) \<Rightarrow> PillLog \<Rightarrow> streakVars \<Rightarrow> streakVars" where
  "streakStep zone entry v =
     (if status entry = Taken then
        (let logDate = startOfDay (scheduledTime entry);
             temp = (case lastDate v of
                       None \<Rightarrow> 1
                     | Some prevDate \<Rightarrow>
                         (let daysDiff = (getTime zone logDate - getTime zone prevDate) div msPerDay in
                          if daysDiff = 0 then tempStreak v
                          else if daysDiff = 1 then tempStreak v + 1
                          else 1))
         in \<lparr>tempStreak = temp, bestStreak = max (bestStreak v) temp, lastDate = Some logDate\<rparr>)
      else if status entry = Missed then v\<lparr>tempStreak := 0\<rparr>
      else v)"

text \<open>The variables before the loop, and the loop over the logs sorted by the instant of
  their scheduled time.\<close>

definition streakVars0 :: streakVars where
  "streakVars0 = \<lparr>tempStreak = 0, bestStreak = 0, lastDate = None\<rparr>"

definition streakPass :: "(date \<Rightarrow> int) \<Rightarrow> PillLog list \<Rightarrow> streakVars" where
  "streakPass zone ls =
     fold (streakStep zone) (sort_key (\<lambda>l. getTime zone (scheduledTime l)) ls) streakVars0"

definition useStreak :: "(date \<Rightarrow> int) \<Rightarrow> date \<Rightarrow> PillLog list \<Rightarrow> StreakData" where
  "useStreak zone now ls =
     (if ls = [] then \<lparr>current = 0, best = 0, lastTaken = None\<rparr>
      else
        let v = streakPass zone ls;
            today = startOfDay now;
            currentStreak =
              (case lastDate v of
                 None \<Rightarrow> 0
               | Some prevDate \<Rightarrow>
                   (let daysSinceLastTaken = (getTime zone today - getTime zone prevDate) div msPerDay in
                    if daysSinceLastTaken \<le> 1 then tempStreak v else 0))
        in \<lparr>current = currentStreak, best = bestStreak v, lastTaken = lastTakenOf ls\<rparr>)"

section \<open>The hook the App uses (hooks/usePills.ts)\<close>

record pillStore =
  pillsOf :: "Pill list"
  logsOf :: "PillLog list"

definition deletePill_usePills :: "string \<Rightarrow> pillStore \<Rightarrow> pillStore" where
  "deletePill_usePills i s =
     s\<lparr>pillsOf := filter (\<lambda>p. id_pill p \<noteq> i) (pillsOf s),
       logsOf := filter (\<lambda>l. pillId l \<noteq> i) (logsOf s)\<rparr>"

text \<open>\<open>uuid\<close> is the value \<^verbatim>\<open>crypto.randomUUID()\<close> returns in the call, \<open>now\<close> the clock;
  \<^verbatim>\<open>toISOString\<close> keeps the milliseconds.\<close>

definition logPillTaken :: "string \<Rightarrow> date \<Rightarrow> string \<Rightarrow> date \<Rightarrow> PillLog list \<Rightarrow> PillLog list" where
  "logPillTaken uuid now pId sched prev =
     prev @ [\<lparr>id_log = uuid, pillId = pId, scheduledTime = sched,
               takenTime = Some now, status = Taken, snoozedUntil = None\<rparr>]"

definition logPillMissed :: "string \<Rightarrow> string \<Rightarrow> date \<Rightarrow> PillLog list \<Rightarrow> PillLog list" where
  "logPillMissed uuid pId sched prev =
     prev @ [\<lparr>id_log = uuid, pillId = pId, scheduledTime = sched,
               takenTime = None, status = Missed, snoozedUntil = None\<rparr>]"

definition snoozePill_usePills ::
    "string \<Rightarrow> date \<Rightarrow> string \<Rightarrow> date \<Rightarrow> int \<Rightarrow> PillLog list \<Rightarrow> PillLog list" where
  "snoozePill_usePills uuid now pId sched snoozeMinutes prev =
     (let snoozedUntil' = addMinutes now snoozeMinutes in
      prev @ [\<lparr>id_log = uuid, pillId = pId, scheduledTime = sched,
                takenTime = None, status = Snoozed, snoozedUntil = Some snoozedUntil'\<rparr>])"

datatype logAction =
  LogTaken string date string date
| LogMissed string string date
| LogSnooze string date string date int

fun applyAction :: "logAction \<Rightarrow> PillLog list \<Rightarrow> PillLog list" where
  "applyAction (LogTaken uuid now pId sched) prev = logPillTaken uuid now pId sched prev"
| "applyAction (LogMissed uuid pId sched) prev = logPillMissed uuid pId sched prev"
| "applyAction (LogSnooze uuid now pId sched n) prev = snoozePill_usePills uuid now pId sched n prev"

definition applyActions :: "logAction list \<Rightarrow> PillLog list \<Rightarrow> PillLog list" where
  "applyActions as prev = fold applyAction as prev"

fun uuidOf :: "logAction \<Rightarrow> string" where
  "uuidOf (LogTaken uuid now pId sched) = uuid"
| "uuidOf (LogMissed uuid pId sched) = uuid"
| "uuidOf (LogSnooze uuid now pId sched n) = uuid"

section \<open>Compliance (components/ComplianceHeatmap.tsx)\<close>

text \<open>
  \<^verbatim>\<open>d.toISOString().split('T')[0]\<close> is the calendar day of \<open>d\<close> in UTC. \<open>tz\<close> is the host's
  offset of local time from UTC in milliseconds (local = UTC + \<open>tz\<close>). The day string is
  modelled by the number of the UTC day. The quotient of two JavaScript numbers is
  modelled by the exact rational.
\<close>

definition toISODate :: "int \<Rightarrow> date \<Rightarrow> int" where
  "toISODate tz d = (d - tz) div msPerDay"

record DayData =
  date :: date
  dateStr :: int
  taken :: nat
  missed :: nat
  total :: nat
  compliance :: rat

definition dayData :: "int \<Rightarrow> PillLog list \<Rightarrow> date \<Rightarrow> nat \<Rightarrow> DayData" where
  "dayData tz ls today i =
     (let date' = today - int i * msPerDay;
          dateStr' = toISODate tz date';
          dayLogs = filter (\<lambda>log. toISODate tz (scheduledTime log) = dateStr') ls;
          taken' = length (filter (\<lambda>log. status log = Taken) dayLogs);
          missed' = length (filter (\<lambda>log. status log = Missed) dayLogs);
          total' = taken' + missed';
          compliance' = (if total' > 0 then (of_nat taken' / of_nat total') * 100 else 0)
      in \<lparr>date = date', dateStr = dateStr', taken = taken', missed = missed',
          total = total', compliance = compliance'\<rparr>)"

text \<open>\<^verbatim>\<open>for (let i = daysToShow - 1; i >= 0; i--)\<close>\<close>

definition heatmapData :: "int \<Rightarrow> date \<Rightarrow> PillLog list \<Rightarrow> nat \<Rightarrow> DayData list" where
  "heatmapData tz now ls daysToShow =
     map (dayData tz ls (startOfDay now)) (rev [0..<daysToShow])"

definition hasData :: "DayData \<Rightarrow> bool" where
  "hasData day = (total day > 0)"

definition getColorClass :: "rat \<Rightarrow> bool \<Rightarrow> string" where
  "getColorClass c hasData' =
     (if \<not> hasData' then ''bg-gray-700''
      else if c = 100 then ''bg-green-500''
      else if c \<ge> 80 then ''bg-green-400''
      else if c \<ge> 60 then ''bg-yellow-500''
      else if c \<ge> 40 then ''bg-orange-500''
      else if c > 0 then ''bg-red-500''
      else ''bg-red-700'')"

definition overallCompliance :: "PillLog list \<Rightarrow> rat" where
  "overallCompliance ls =
     (let totalLogs = filter (\<lambda>l. status l = Taken \<or> status l = Missed) ls;
          takenLogs = filter (\<lambda>l. status l = Taken) ls
      in if length totalLogs > 0 then (of_nat (length takenLogs) / of_nat (length totalLogs)) * 100
         else 0)"

section \<open>Persistence (hooks/useLocalStorage.ts)\<close>

text \<open>
  The hook's React state, the browser store and the console. The store's \<^verbatim>\<open>setItem\<close>
  is a parameter: it returns the new store, or the error it throws. \<^verbatim>\<open>JSON.stringify\<close>
  is a parameter too. A \<^verbatim>\<open>console.error(message, error)\<close> call adds the pair to the console.
\<close>

datatype 'a setStateAction = Value 'a | Updater "'a \<Rightarrow> 'a"

record 'a storageHook =
  storedValue :: 'a
  localStorage :: "string \<Rightarrow> string option"
  consoleErrors :: "(string \<times> string) list"

definition setValue ::
    "(string \<Rightarrow> string \<Rightarrow> (string \<Rightarrow> string option) \<Rightarrow> string + (string \<Rightarrow> string option)) \<Rightarrow>
     ('a \<Rightarrow> string) \<Rightarrow> string \<Rightarrow> 'a setStateAction \<Rightarrow> 'a storageHook \<Rightarrow> 'a storageHook" where
  "setValue setItem stringify key val h =
     (let valueToStore = (case val of Updater f \<Rightarrow> f (storedValue h) | Value v \<Rightarrow> v);
          h' = h\<lparr>storedValue := valueToStore\<rparr>
      in case setItem key (stringify valueToStore) (localStorage h') of
           Inr store \<Rightarrow> h'\<lparr>localStorage := store\<rparr>
         | Inl error \<Rightarrow>
             h'\<lparr>consoleErrors :=
                  consoleErrors h' @ [(''Error saving to localStorage key '' @ key, error)]\<rparr>)"

section \<open>Reference notions and example data\<close>

text \<open>The field invariant of the data model, and the half of it the mutations keep.\<close>

definition fieldsExact :: "PillLog \<Rightarrow> bool" where
  "fieldsExact l =
     ((takenTime l \<noteq> None) = (status l = Taken) \<and> (snoozedUntil l \<noteq> None) = (status l = Snoozed))"

definition fieldsImplied :: "PillLog \<Rightarrow> bool" where
  "fieldsImplied l =
     ((status l = Taken \<longrightarrow> takenTime l \<noteq> None) \<and> (status l = Snoozed \<longrightarrow> snoozedUntil l \<noteq> None))"

text \<open>The log of the hook's tests: pill-1, due on 2025-01-20 at 09:00.\<close>

definition pendingLog :: PillLog where
  "pendingLog = \<lparr>id_log = ''log-1'', pillId = ''pill-1'', scheduledTime = 1737363600000,
     takenTime = None, status = Pending, snoozedUntil = None\<rparr>"

definition aspirin :: Pill where
  "aspirin = \<lparr>id_pill = ''pill-1'', name_pill = ''Aspirin'', dosage = ''100mg'',
     times_pill = [\<lparr>hours = 9, minutes = 0\<rparr>, \<lparr>hours = 21, minutes = 0\<rparr>],
     color_pill = None, notes_pill = None\<rparr>"

definition vitaminD :: Pill where
  "vitaminD = \<lparr>id_pill = ''pill-2'', name_pill = ''Vitamin D'', dosage = ''1000 IU'',
     times_pill = [\<lparr>hours = 8, minutes = 30\<rparr>],
     color_pill = None, notes_pill = None\<rparr>"

definition vitaminLog :: PillLog where
  "vitaminLog = \<lparr>id_log = ''log-2'', pillId = ''pill-2'', scheduledTime = 1737361800000,
     takenTime = None, status = Pending, snoozedUntil = None\<rparr>"

text \<open>Every pill with every entry of its times, in the order of the lists; a calendar day
  combined with a time of day; and the pending log of one such occurrence.\<close>

definition occurrences :: "Pill list \<Rightarrow> (Pill \<times> TimeOfDay) list" where
  "occurrences ps = concat (map (\<lambda>p. map (\<lambda>t. (p, t)) (times_pill p)) ps)"

definition atTimeOfDay :: "int \<Rightarrow> TimeOfDay \<Rightarrow> date" where
  "atTimeOfDay day t = day * msPerDay + (int (hours t) * 60 + int (minutes t)) * 60000"

definition pendingAt :: "date \<Rightarrow> string \<times> Pill \<times> TimeOfDay \<Rightarrow> PillLog" where
  "pendingAt now = (\<lambda>(uuid, p, t).
     \<lparr>id_log = uuid, pillId = id_pill p, scheduledTime = atTimeOfDay (dayOf now) t,
      takenTime = None, status = Pending, snoozedUntil = None\<rparr>)"

text \<open>The ids of the uuid mock of the hook's tests.\<close>

definition mockUuid :: "nat \<Rightarrow> string" where
  "mockUuid k = [''mock-uuid-1'', ''mock-uuid-2'', ''mock-uuid-3'', ''mock-uuid-4''] ! k"

definition twoPills :: schedule where
  "twoPills = \<lparr>pills = [aspirin, vitaminD], logs = [], lastScheduleDate = OtherString ''''\<rparr>"

text \<open>
  The streak as the specification words it: the calendar dates of the taken entries,
  same-day entries counted once, the distinct dates in descending order, and the count from
  the most recent date backwards while each next date is exactly one day earlier.
\<close>

definition takenDates :: "PillLog list \<Rightarrow> int list" where
  "takenDates ls =
     map (\<lambda>l. dayOf (the (takenTime l)))
       (filter (\<lambda>l. status l = Taken \<and> takenTime l \<noteq> None) ls)"

definition distinctDescending :: "int list \<Rightarrow> int list" where
  "distinctDescending ds = rev (sorted_list_of_set (set ds))"

fun countConsecutive :: "int list \<Rightarrow> nat" where
  "countConsecutive [] = 0"
| "countConsecutive [d] = 1"
| "countConsecutive (d # e # ds) = (if d - e = 1 then Suc (countConsecutive (e # ds)) else 1)"

definition streakSpec :: "PillLog list \<Rightarrow> nat" where
  "streakSpec ls = countConsecutive (distinctDescending (takenDates ls))"




text \<open>Example logs: hour \<open>h\<close> of day \<open>d\<close> of January 2025, a log of pill-1 with a given
  status scheduled (and, when taken, taken) at a given time, and the logs of the hook's
  test of the best streak.\<close>

definition jan2025 :: "int \<Rightarrow> int \<Rightarrow> date" where
  "jan2025 d h = (20088 + d) * msPerDay + h * 3600000"

definition logAt :: "status \<Rightarrow> date \<Rightarrow> PillLog" where
  "logAt st t = \<lparr>id_log = ''log'', pillId = ''pill-1'', scheduledTime = t,
     takenTime = (if st = Taken then Some t else None), status = st, snoozedUntil = None\<rparr>"

definition bestStreakTestLogs :: "PillLog list" where
  "bestStreakTestLogs =
     map (logAt Taken) [jan2025 20 9, jan2025 19 9, jan2025 17 9, jan2025 16 9, jan2025 15 9]"



text \<open>
  A host time zone with daylight saving, Europe/Berlin in 2025: one hour east of UTC until
  the local reading 02:00 of 30 March, two hours until 03:00 of 26 October, one hour after.
\<close>

definition berlin2025 :: "date \<Rightarrow> int" where
  "berlin2025 d =
     (if d < 20177 * msPerDay + 2 * 3600000 then 3600000
      else if d < 20387 * msPerDay + 3 * 3600000 then 7200000
      else 3600000)"











section \<open>Calendar days and the two streak loops\<close>

lemma msPerDay_pos: "0 < msPerDay"
  by (simp add: msPerDay_def)

lemma dayOf_startOfDay: "dayOf (startOfDay d) = dayOf d"
  using msPerDay_pos by (simp add: dayOf_def startOfDay_def)

lemma differenceInDays_midnights:
  "differenceInDays (a * msPerDay) (b * msPerDay) = a - b"
proof -
  have m: "0 < msPerDay" by (rule msPerDay_pos)
  have l: "(a * msPerDay - b * msPerDay) div msPerDay = a - b"
    using m by (simp flip: left_diff_distrib)
  have r: "(b * msPerDay - a * msPerDay) div msPerDay = b - a"
    using m by (simp flip: left_diff_distrib)
  show ?thesis
    unfolding differenceInDays_def l r by simp
qed

lemma countConsecutive_remdups_adj_Cons:
  "sorted_wrt (\<ge>) (c # e # ds) \<Longrightarrow>
   countConsecutive (remdups_adj (c # e # ds)) =
     (if c - e = 0 then countConsecutive (remdups_adj (e # ds))
      else if c - e = 1 then Suc (countConsecutive (remdups_adj (e # ds)))
      else 1)"
proof -
  obtain r where r: "remdups_adj (e # ds) = e # r"
    by (metis hd_remdups_adj list.sel(1) list.exhaust remdups_adj_Nil_iff list.distinct(1))
  show ?thesis
    by (cases "c = e") (simp_all add: r)
qed

lemma streakLoop_days:
  "sorted_wrt (\<ge>) (c # map (\<lambda>l. dayOf (the (takenTime l))) ls) \<Longrightarrow>
   streakLoop (c * msPerDay) (Suc n) ls
     = n + countConsecutive (remdups_adj (c # map (\<lambda>l. dayOf (the (takenTime l))) ls))"
proof (induction ls arbitrary: c n)
  case Nil
  then show ?case by simp
next
  case (Cons x xs)
  let ?e = "dayOf (the (takenTime x))"
  let ?ds = "map (\<lambda>l. dayOf (the (takenTime l))) xs"
  have s: "sorted_wrt (\<ge>) (c # ?e # ?ds)" using Cons.prems by simp
  have ec: "?e \<le> c" using s by simp
  have s': "sorted_wrt (\<ge>) (?e # ?ds)" using s by simp
  have s'': "sorted_wrt (\<ge>) (c # ?ds)" using s by auto
  have diff: "differenceInDays (c * msPerDay) (startOfDay (the (takenTime x))) = c - ?e"
    unfolding startOfDay_def by (rule differenceInDays_midnights)
  have cc: "countConsecutive (remdups_adj (c # ?e # ?ds)) =
     (if c - ?e = 0 then countConsecutive (remdups_adj (?e # ?ds))
      else if c - ?e = 1 then Suc (countConsecutive (remdups_adj (?e # ?ds)))
      else 1)"
    using s by (rule countConsecutive_remdups_adj_Cons)
  consider "c - ?e = 0" | "c - ?e = 1" | "c - ?e > 1" using ec by linarith
  then show ?case
  proof cases
    case 1
    then have eq: "?e = c" by simp
    have d0: "differenceInDays (c * msPerDay) (startOfDay (the (takenTime x))) = 0"
      using diff 1 by simp
    have "streakLoop (c * msPerDay) (Suc n) (x # xs) = streakLoop (c * msPerDay) (Suc n) xs"
      by (simp add: d0 Let_def)
    also have "\<dots> = n + countConsecutive (remdups_adj (c # ?ds))"
      using s'' by (rule Cons.IH)
    finally show ?thesis using eq by simp
  next
    case 2
    have d1: "differenceInDays (c * msPerDay) (startOfDay (the (takenTime x))) = 1"
      using diff 2 by simp
    have "streakLoop (c * msPerDay) (Suc n) (x # xs) = streakLoop (?e * msPerDay) (Suc (Suc n)) xs"
      by (simp add: d1 Let_def) (simp add: startOfDay_def)
    also have "\<dots> = Suc n + countConsecutive (remdups_adj (?e # ?ds))"
      using s' by (rule Cons.IH)
    finally show ?thesis using 2 cc by simp
  next
    case 3
    have d2: "1 < differenceInDays (c * msPerDay) (startOfDay (the (takenTime x)))"
      using diff 3 by simp
    have "streakLoop (c * msPerDay) (Suc n) (x # xs) = Suc n"
      using d2 by (simp add: Let_def)
    then show ?thesis using 3 cc by simp
  qed
qed

lemma distinct_remdups_adj_sorted:
  "sorted (xs :: int list) \<Longrightarrow> distinct (remdups_adj xs)"
  by (induction xs rule: remdups_adj.induct) auto

lemma remdups_adj_descending:
  assumes "sorted_wrt (\<ge>) (xs :: int list)"
  shows "remdups_adj xs = rev (sorted_list_of_set (set xs))"
proof -
  have s: "sorted (rev xs)" using assms by (simp add: sorted_wrt_rev)
  have "sorted (remdups_adj (rev xs))" using s by (rule sorted_remdups_adj)
  moreover have "distinct (remdups_adj (rev xs))" using s by (rule distinct_remdups_adj_sorted)
  moreover have "set (remdups_adj (rev xs)) = set xs" by simp
  ultimately have "remdups_adj (rev xs) = sorted_list_of_set (set xs)"
    by (metis sorted_list_of_set.idem_if_sorted_distinct)
  then show ?thesis by (metis remdups_adj_rev rev_rev_ident)
qed

lemma dayOf_mono: "a \<le> b \<Longrightarrow> dayOf a \<le> dayOf b"
  unfolding dayOf_def using msPerDay_pos by (simp add: zdiv_mono1)

lemma sortedTaken_days:
  "sorted_wrt (\<ge>) (map (\<lambda>l. dayOf (the (takenTime l))) (sortedTaken ls))"
proof -
  let ?k = "\<lambda>l. - the (takenTime l)"
  have "sorted (map ?k (sortedTaken ls))"
    unfolding sortedTaken_def by (rule sorted_sort_key)
  then have "sorted_wrt (\<lambda>a b. ?k a \<le> ?k b) (sortedTaken ls)"
    by (simp add: sorted_wrt_map)
  then have "sorted_wrt (\<lambda>a b. dayOf (the (takenTime a)) \<ge> dayOf (the (takenTime b))) (sortedTaken ls)"
    by (rule sorted_wrt_mono_rel [rotated]) (simp add: dayOf_mono)
  then show ?thesis by (simp add: sorted_wrt_map)
qed

lemma set_sortedTaken_days:
  "set (map (\<lambda>l. dayOf (the (takenTime l))) (sortedTaken ls)) = set (takenDates ls)"
  by (simp add: sortedTaken_def takenDates_def)

lemma calculateStreak_eq_spec: "calculateStreak ls = streakSpec ls"
proof (cases "sortedTaken ls")
  case Nil
  then have "set (takenDates ls) = {}"
    using set_sortedTaken_days [of ls] by simp
  then show ?thesis
    using Nil by (simp add: calculateStreak_def streakSpec_def distinctDescending_def)
next
  case (Cons first rest)
  let ?k = "\<lambda>l. dayOf (the (takenTime l))"
  have ne: "ls \<noteq> []" using Cons by (auto simp: sortedTaken_def)
  have s: "sorted_wrt (\<ge>) (?k first # map ?k rest)"
    using sortedTaken_days [of ls] Cons by simp
  have "calculateStreak ls = streakLoop (?k first * msPerDay) (Suc 0) rest"
    using ne Cons by (simp add: calculateStreak_def startOfDay_def)
  also have "\<dots> = countConsecutive (remdups_adj (?k first # map ?k rest))"
    using streakLoop_days [OF s, of 0] by simp
  also have "\<dots> = countConsecutive (rev (sorted_list_of_set (set (?k first # map ?k rest))))"
    using remdups_adj_descending [OF s] by simp
  also have "set (?k first # map ?k rest) = set (takenDates ls)"
    using set_sortedTaken_days [of ls] Cons by simp
  finally show ?thesis by (simp add: streakSpec_def distinctDescending_def)
qed

lemma midnights_div: "(a * msPerDay - b * msPerDay) div msPerDay = a - b"
  using msPerDay_pos by (simp flip: left_diff_distrib)

section \<open>Runs of consecutive days\<close>














lemma insort_key_cong_set:
  "f x = g x \<Longrightarrow> \<forall>y \<in> set ys. f y = g y \<Longrightarrow> insort_key f x ys = insort_key g x ys"
  by (induction ys) simp_all

lemma sort_key_cong_set:
  "\<forall>x \<in> set xs. f x = g x \<Longrightarrow> sort_key f xs = sort_key g xs"
proof (induction xs)
  case Nil
  then show ?case by simp
next
  case (Cons x xs)
  have "sort_key f xs = sort_key g xs" using Cons by simp
  moreover have "insort_key f x (sort_key g xs) = insort_key g x (sort_key g xs)"
    using Cons.prems by (intro insort_key_cong_set) simp_all
  ultimately show ?case by simp
qed

section \<open>The pass of useStreak over the sorted log\<close>

subsection \<open>The loop of useStreak\<close>




lemma streakStep_not_taken:
  "status x \<noteq> Taken \<Longrightarrow> status x \<noteq> Missed \<Longrightarrow> streakStep zone x v = v"
  by (simp add: streakStep_def)


























section \<open>The hooks on a log with one more entry\<close>


lemma useStreak_alt:
  "useStreak zone now ls =
     \<lparr>current = (case lastDate (streakPass zone ls) of None \<Rightarrow> 0
                 | Some p \<Rightarrow> if (getTime zone (startOfDay now) - getTime zone p) div msPerDay \<le> 1
                            then tempStreak (streakPass zone ls) else 0),
      best = bestStreak (streakPass zone ls),
      lastTaken = lastTakenOf ls\<rparr>"
proof (cases "ls = []")
  case True
  then show ?thesis
    by (simp add: useStreak_def streakPass_def streakVars0_def lastTakenOf_def sortedTaken_def)
next
  case False
  then show ?thesis
    by (simp add: useStreak_def Let_def split: option.split)
qed


lemma sortedTaken_insert:
  "status x \<noteq> Taken \<Longrightarrow> sortedTaken (xs @ x # ys) = sortedTaken (xs @ ys)"
  by (simp add: sortedTaken_def)

lemma sortedTaken_not_taken: "status x \<noteq> Taken \<Longrightarrow> sortedTaken [x] = []"
  by (simp add: sortedTaken_def)

lemma calculateStreak_alt:
  "calculateStreak ls =
     (case sortedTaken ls of [] \<Rightarrow> 0
      | first # rest \<Rightarrow> streakLoop (startOfDay (the (takenTime first))) 1 rest)"
  by (cases "ls = []") (simp_all add: calculateStreak_def sortedTaken_def)

lemma calculateStreak_insert:
  assumes "status x \<noteq> Taken"
  shows "calculateStreak (xs @ x # ys) = calculateStreak (xs @ ys)"
  unfolding calculateStreak_alt sortedTaken_insert [OF assms] ..

lemma streakData_insert:
  assumes "status x \<noteq> Taken"
  shows "streakData (xs @ x # ys) = streakData (xs @ ys)"
  using assms
  by (simp add: streakData_def calculateStreak_insert lastTakenOf_def sortedTaken_insert)

lemma fold_streakStep_filter:
  "fold (streakStep zone) xs v
     = fold (streakStep zone) (filter (\<lambda>l. status l = Taken \<or> status l = Missed) xs) v"
  by (induction xs arbitrary: v) (simp_all add: streakStep_not_taken)

lemma streakPass_insert:
  assumes "status x = Pending \<or> status x = Snoozed"
  shows "streakPass zone (xs @ x # ys) = streakPass zone (xs @ ys)"
proof -
  let ?r = "\<lambda>l. status l = Taken \<or> status l = Missed"
  let ?k = "\<lambda>l. getTime zone (scheduledTime l)"
  have f: "filter ?r (xs @ x # ys) = filter ?r (xs @ ys)"
    using assms by auto
  have "streakPass zone zs = fold (streakStep zone) (sort_key ?k (filter ?r zs)) streakVars0" for zs
    unfolding streakPass_def
    by (subst fold_streakStep_filter) (simp only: filter_sort)
  then show ?thesis using f by simp
qed

lemma useStreak_insert:
  assumes "status x = Pending \<or> status x = Snoozed"
  shows "useStreak zone now (xs @ x # ys) = useStreak zone now (xs @ ys)"
proof -
  have nt: "status x \<noteq> Taken" using assms by auto
  show ?thesis
    unfolding useStreak_alt streakPass_insert [OF assms] lastTakenOf_def sortedTaken_insert [OF nt] ..
qed

section \<open>The time zone of the host\<close>













section \<open>Deleting a pill\<close>

text \<open>
  C7 (as amended). \<^const>\<open>deletePill\<close>, in both hooks, keeps exactly the pills whose id differs
  from the given one and exactly the logs whose \<^const>\<open>pillId\<close> differs from it, each kept entry
  unchanged and in its place, and leaves the generation marker alone. When no pill has the
  id and every log refers to a pill of the list, both collections stay as they are.
\<close>

theorem deletePill_cascade:
  "pills (deletePill i s) = [p \<leftarrow> pills s. id_pill p \<noteq> i] \<and>
   logs (deletePill i s) = [l \<leftarrow> logs s. pillId l \<noteq> i] \<and>
   lastScheduleDate (deletePill i s) = lastScheduleDate s \<and>
   pillsOf (deletePill_usePills i t) = [p \<leftarrow> pillsOf t. id_pill p \<noteq> i] \<and>
   logsOf (deletePill_usePills i t) = [l \<leftarrow> logsOf t. pillId l \<noteq> i] \<and>
   ((\<forall>p \<in> set (pills s). id_pill p \<noteq> i) \<and>
    (\<forall>l \<in> set (logs s). \<exists>p \<in> set (pills s). pillId l = id_pill p)
      \<longrightarrow> deletePill i s = s) \<and>
   ((\<forall>p \<in> set (pillsOf t). id_pill p \<noteq> i) \<and>
    (\<forall>l \<in> set (logsOf t). \<exists>p \<in> set (pillsOf t). pillId l = id_pill p)
      \<longrightarrow> deletePill_usePills i t = t)"
proof -
  have a: "deletePill i s = s"
    if "\<forall>p \<in> set (pills s). id_pill p \<noteq> i"
      and "\<forall>l \<in> set (logs s). \<exists>p \<in> set (pills s). pillId l = id_pill p"
  proof -
    have "[p \<leftarrow> pills s. id_pill p \<noteq> i] = pills s"
      using that(1) by (simp add: filter_id_conv)
    moreover have "[l \<leftarrow> logs s. pillId l \<noteq> i] = logs s"
      using that unfolding filter_id_conv by metis
    ultimately show ?thesis by (simp add: deletePill_def)
  qed
  have b: "deletePill_usePills i t = t"
    if "\<forall>p \<in> set (pillsOf t). id_pill p \<noteq> i"
      and "\<forall>l \<in> set (logsOf t). \<exists>p \<in> set (pillsOf t). pillId l = id_pill p"
  proof -
    have "[p \<leftarrow> pillsOf t. id_pill p \<noteq> i] = pillsOf t"
      using that(1) by (simp add: filter_id_conv)
    moreover have "[l \<leftarrow> logsOf t. pillId l \<noteq> i] = logsOf t"
      using that unfolding filter_id_conv by metis
    ultimately show ?thesis by (simp add: deletePill_usePills_def)
  qed
  show ?thesis using a b by (simp add: deletePill_def deletePill_usePills_def)
qed

text \<open>Two pills and a log of each: deleting the first, then an id that no pill has.\<close>

theorem deletePill_cascade_witness:
  "logs (deletePill ''pill-1''
      \<lparr>pills = [aspirin, vitaminD], logs = [pendingLog, vitaminLog],
        lastScheduleDate = OtherString ''''\<rparr>) = [vitaminLog] \<and>
   pills (deletePill ''pill-1''
      \<lparr>pills = [aspirin, vitaminD], logs = [pendingLog, vitaminLog],
        lastScheduleDate = OtherString ''''\<rparr>) = [vitaminD] \<and>
   id_pill vitaminD \<noteq> ''pill-1'' \<and> pillId vitaminLog = id_pill vitaminD \<and>
   deletePill ''pill-1'' \<lparr>pills = [vitaminD], logs = [vitaminLog], lastScheduleDate = OtherString ''''\<rparr>
     = \<lparr>pills = [vitaminD], logs = [vitaminLog], lastScheduleDate = OtherString ''''\<rparr>"
  using deletePill_cascade [of "''pill-1''"
      "\<lparr>pills = [aspirin, vitaminD], logs = [pendingLog, vitaminLog],
        lastScheduleDate = OtherString ''''\<rparr>"]
    deletePill_cascade [of "''pill-1''"
      "\<lparr>pills = [vitaminD], logs = [vitaminLog], lastScheduleDate = OtherString ''''\<rparr>"]
  by (simp add: aspirin_def vitaminD_def pendingLog_def vitaminLog_def)

text \<open>A log whose pill is not in the list (as in the hook's tests, which store logs of
  pill-1 and no pill) is removed by deleting that id, although no pill has it.\<close>

theorem deletePill_dangling_counterexample:
  "pills \<lparr>pills = [], logs = [pendingLog], lastScheduleDate = OtherString ''''\<rparr> = [] \<and>
   logs \<lparr>pills = [], logs = [pendingLog], lastScheduleDate = OtherString ''''\<rparr> = [pendingLog] \<and>
   logs (deletePill ''pill-1''
           \<lparr>pills = [], logs = [pendingLog], lastScheduleDate = OtherString ''''\<rparr>) = []"
  by (simp add: deletePill_def pendingLog_def)

section \<open>Marking and snoozing a log (usePillSchedule)\<close>

lemma applyMutation_fieldsImplied:
  "\<forall>l \<in> set prev. fieldsImplied l \<Longrightarrow> \<forall>l \<in> set (applyMutation m prev). fieldsImplied l"
  by (cases m) (auto simp: markPillTaken_def snoozePill_def markPillMissed_def fieldsImplied_def)

lemma applyMutations_fieldsImplied:
  "\<forall>l \<in> set prev. fieldsImplied l \<Longrightarrow> \<forall>l \<in> set (applyMutations ms prev). fieldsImplied l"
  unfolding applyMutations_def
proof (induction ms arbitrary: prev)
  case Nil
  then show ?case by simp
next
  case (Cons m ms)
  have "\<forall>l \<in> set (applyMutation m prev). fieldsImplied l"
    using Cons.prems by (rule applyMutation_fieldsImplied)
  then show ?case using Cons.IH by simp
qed

text \<open>
  C1 (as amended). \<^const>\<open>markPillTaken\<close> sets the status of every log with the given id to
  taken and its \<^const>\<open>takenTime\<close> to the clock (to the second), and leaves
  \<^const>\<open>snoozedUntil\<close> and every other log as they were; \<^const>\<open>markPillMissed\<close> changes the
  status only. So a sequence of mark and snooze mutations keeps, for every log: a taken log
  has a \<^const>\<open>takenTime\<close> and a snoozed log has a \<^const>\<open>snoozedUntil\<close>. The converse
  implications are not kept.
\<close>

theorem mark_mutations_fields:
  "list_all2 (\<lambda>l l'. if id_log l = logId
                      then l' = l\<lparr>status := Taken, takenTime := Some (formatDateTime now)\<rparr> \<and>
                           snoozedUntil l' = snoozedUntil l
                      else l' = l) prev (markPillTaken now logId prev) \<and>
   list_all2 (\<lambda>l l'. if id_log l = logId
                      then l' = l\<lparr>status := Missed\<rparr> \<and>
                           takenTime l' = takenTime l \<and> snoozedUntil l' = snoozedUntil l
                      else l' = l) prev (markPillMissed logId prev) \<and>
   ((\<forall>l \<in> set prev. fieldsImplied l) \<longrightarrow> (\<forall>l \<in> set (applyMutations ms prev). fieldsImplied l))"
proof -
  have "list_all2 (\<lambda>l l'. if id_log l = logId
                      then l' = l\<lparr>status := Taken, takenTime := Some (formatDateTime now)\<rparr> \<and>
                           snoozedUntil l' = snoozedUntil l
                      else l' = l) prev (markPillTaken now logId prev)"
    by (simp add: markPillTaken_def list_all2_map2 list_all2_same)
  moreover have "list_all2 (\<lambda>l l'. if id_log l = logId
                      then l' = l\<lparr>status := Missed\<rparr> \<and>
                           takenTime l' = takenTime l \<and> snoozedUntil l' = snoozedUntil l
                      else l' = l) prev (markPillMissed logId prev)"
    by (simp add: markPillMissed_def list_all2_map2 list_all2_same)
  ultimately show ?thesis using applyMutations_fieldsImplied by blast
qed

text \<open>The pending log of the tests, snoozed at 09:00 for 15 minutes, taken at 09:15:00.123
  and then marked missed.\<close>

theorem mark_mutations_fields_witness:
  "fieldsImplied pendingLog \<and>
   list_all fieldsImplied
     (applyMutations [Snooze 1737363600000 ''log-1'' 15, MarkTaken 1737364500123 ''log-1'',
                      MarkMissed ''log-1''] [pendingLog]) \<and>
   markPillTaken 1737364500123 ''log-1'' [pendingLog]
     = [pendingLog\<lparr>status := Taken, takenTime := Some 1737364500000\<rparr>]"
  using mark_mutations_fields [of "''log-1''" 1737364500123 "[pendingLog]"
      "[Snooze 1737363600000 ''log-1'' 15, MarkTaken 1737364500123 ''log-1'', MarkMissed ''log-1'']"]
  by (simp add: pendingLog_def fieldsImplied_def applyMutations_def markPillTaken_def
      snoozePill_def markPillMissed_def formatDateTime_def addMinutes_def)

text \<open>Snoozed and then taken, the log keeps its \<^const>\<open>snoozedUntil\<close>; taken and then marked
  missed, it keeps its \<^const>\<open>takenTime\<close>.\<close>

theorem mark_taken_keeps_snoozedUntil_counterexample:
  "fieldsExact pendingLog \<and>
   applyMutations [Snooze 1737363600000 ''log-1'' 15, MarkTaken 1737364500000 ''log-1''] [pendingLog]
     = [pendingLog\<lparr>takenTime := Some 1737364500000, status := Taken,
                   snoozedUntil := Some 1737364500000\<rparr>] \<and>
   \<not> fieldsExact (pendingLog\<lparr>takenTime := Some 1737364500000, status := Taken,
                              snoozedUntil := Some 1737364500000\<rparr>) \<and>
   applyMutations [MarkTaken 1737364500000 ''log-1'', MarkMissed ''log-1''] [pendingLog]
     = [pendingLog\<lparr>takenTime := Some 1737364500000, status := Missed\<rparr>] \<and>
   \<not> fieldsExact (pendingLog\<lparr>takenTime := Some 1737364500000, status := Missed\<rparr>)"
  by (simp add: applyMutations_def markPillTaken_def snoozePill_def markPillMissed_def
      pendingLog_def fieldsExact_def formatDateTime_def addMinutes_def)

section \<open>The append-only log of usePills\<close>

lemma applyAction_append:
  "\<exists>row. applyAction a prev = prev @ [row] \<and> id_log row = uuidOf a"
  by (cases a) (simp_all add: logPillTaken_def logPillMissed_def snoozePill_usePills_def)

lemma applyActions_append:
  "\<exists>new. applyActions as prev = prev @ new \<and> map id_log new = map uuidOf as"
proof (induction as arbitrary: prev)
  case Nil
  then show ?case by (simp add: applyActions_def)
next
  case (Cons a as)
  obtain row where r: "applyAction a prev = prev @ [row]" "id_log row = uuidOf a"
    using applyAction_append by blast
  obtain new where n: "applyActions as (prev @ [row]) = (prev @ [row]) @ new"
      "map id_log new = map uuidOf as"
    using Cons.IH by blast
  have "applyActions (a # as) prev = prev @ (row # new)"
    using r n by (simp add: applyActions_def)
  moreover have "map id_log (row # new) = map uuidOf (a # as)"
    using r n by simp
  ultimately show ?case by blast
qed

text \<open>
  C10. In usePills, \<^const>\<open>logPillTaken\<close>, \<^const>\<open>logPillMissed\<close> and
  \<^const>\<open>snoozePill_usePills\<close> only append: after any sequence of them the list is longer by one
  row per call, the rows that were there are unchanged, the new rows carry the ids that
  \<^verbatim>\<open>crypto.randomUUID()\<close> returned (so the ids stay distinct when those are fresh), and one
  occurrence (same pill and scheduled time) can hold a taken row and a missed row at once.
\<close>

theorem usePills_append_only:
  "length (applyActions as prev) = length prev + length as \<and>
   take (length prev) (applyActions as prev) = prev \<and>
   map id_log (drop (length prev) (applyActions as prev)) = map uuidOf as \<and>
   (distinct (map id_log prev @ map uuidOf as) \<longrightarrow> distinct (map id_log (applyActions as prev))) \<and>
   (\<exists>a \<in> set (applyActions [LogTaken u1 now pId sched, LogMissed u2 pId sched] prev).
    \<exists>b \<in> set (applyActions [LogTaken u1 now pId sched, LogMissed u2 pId sched] prev).
      pillId a = pillId b \<and> scheduledTime a = scheduledTime b \<and>
      status a = Taken \<and> status b = Missed)"
proof -
  obtain new where n: "applyActions as prev = prev @ new" "map id_log new = map uuidOf as"
    using applyActions_append by blast
  have len: "length new = length as"
    using n(2) by (metis length_map)
  have "\<exists>a \<in> set (applyActions [LogTaken u1 now pId sched, LogMissed u2 pId sched] prev).
    \<exists>b \<in> set (applyActions [LogTaken u1 now pId sched, LogMissed u2 pId sched] prev).
      pillId a = pillId b \<and> scheduledTime a = scheduledTime b \<and>
      status a = Taken \<and> status b = Missed"
    by (simp add: applyActions_def logPillTaken_def logPillMissed_def)
  then show ?thesis using n len by simp
qed

text \<open>The pending row of pill-1 at 09:00, then a taken and a missed row for the same
  occurrence.\<close>

theorem usePills_append_only_witness:
  "distinct (map id_log [pendingLog] @
      map uuidOf [LogTaken ''u1'' 1737364500123 ''pill-1'' 1737363600000,
                  LogMissed ''u2'' ''pill-1'' 1737363600000]) \<and>
   length (applyActions [LogTaken ''u1'' 1737364500123 ''pill-1'' 1737363600000,
                         LogMissed ''u2'' ''pill-1'' 1737363600000] [pendingLog]) = 3 \<and>
   map id_log (applyActions [LogTaken ''u1'' 1737364500123 ''pill-1'' 1737363600000,
                         LogMissed ''u2'' ''pill-1'' 1737363600000] [pendingLog])
     = [''log-1'', ''u1'', ''u2''] \<and>
   map status (applyActions [LogTaken ''u1'' 1737364500123 ''pill-1'' 1737363600000,
                         LogMissed ''u2'' ''pill-1'' 1737363600000] [pendingLog])
     = [Pending, Taken, Missed]"
  using usePills_append_only [of
      "[LogTaken ''u1'' 1737364500123 ''pill-1'' 1737363600000,
        LogMissed ''u2'' ''pill-1'' 1737363600000]" "[pendingLog]"]
  by (simp add: pendingLog_def applyActions_def logPillTaken_def logPillMissed_def)

section \<open>A failed write to the store\<close>

lemma setValue_failed_write:
  assumes "setItem key (stringify v) (localStorage h) = Inl e"
  shows "storedValue (setValue setItem stringify key (Value v) h) = v"
    and "localStorage (setValue setItem stringify key (Value v) h) = localStorage h"
    and "consoleErrors (setValue setItem stringify key (Value v) h)
           = consoleErrors h @ [(''Error saving to localStorage key '' @ key, e)]"
  using assms by (simp_all add: setValue_def)


text \<open>
  C9 (the code at the failing input). With a \<^verbatim>\<open>setItem\<close> that throws, as the mock of the
  hook's test does, \<^const>\<open>setValue\<close> has already replaced the value in memory when the write
  fails: the hook then holds the new value, the store still has no entry for the key, and
  the error is on the console, not thrown.
\<close>

theorem setValue_failed_write_keeps_new_value:
  "storedValue (setValue (\<lambda>key value store. Inl ''Storage full'') stringify ''test-key''
      (Value ''updated'')
      \<lparr>storedValue = ''initial'', localStorage = Map.empty, consoleErrors = []\<rparr>) = ''updated'' \<and>
   consoleErrors (setValue (\<lambda>key value store. Inl ''Storage full'') stringify ''test-key''
      (Value ''updated'')
      \<lparr>storedValue = ''initial'', localStorage = Map.empty, consoleErrors = []\<rparr>)
     = [(''Error saving to localStorage key test-key'', ''Storage full'')] \<and>
   localStorage (setValue (\<lambda>key value store. Inl ''Storage full'') stringify ''test-key''
      (Value ''updated'')
      \<lparr>storedValue = ''initial'', localStorage = Map.empty, consoleErrors = []\<rparr>) ''test-key''
     = None"
  by (simp add: setValue_def)

section \<open>The daily generation pass\<close>

lemma scheduled_atTimeOfDay:
  "formatDateTime (parseTimeString t now) = atTimeOfDay (dayOf now) t"
proof -
  define q where "q = dayOf now * 86400 + int (hours t) * 3600 + int (minutes t) * 60"
  have v: "parseTimeString t now = 1000 * q"
    by (simp add: parseTimeString_def setHours_def startOfDay_def msPerDay_def q_def)
  have a: "atTimeOfDay (dayOf now) t = 1000 * q"
    by (simp add: atTimeOfDay_def msPerDay_def q_def)
  have "formatDateTime (1000 * q) = 1000 * q"
    by (simp add: formatDateTime_def)
  then show ?thesis using v a by simp
qed

lemma fold_pushLog:
  "fold (pushLog uuids now p) ts acc =
     acc @ map (\<lambda>(k, t). pendingAt now (uuids k, p, t)) (enumerate (length acc) ts)"
proof (induction ts arbitrary: acc)
  case Nil
  then show ?case by simp
next
  case (Cons t ts)
  show ?case
    by (simp add: Cons.IH) (simp add: pushLog_def pendingAt_def scheduled_atTimeOfDay)
qed

lemma fold_pills:
  "fold (\<lambda>pill newLogs. fold (pushLog uuids now pill) (times_pill pill) newLogs) ps acc =
     acc @ map (\<lambda>(k, p, t). pendingAt now (uuids k, p, t)) (enumerate (length acc) (occurrences ps))"
proof (induction ps arbitrary: acc)
  case Nil
  then show ?case by (simp add: occurrences_def)
next
  case (Cons p ps)
  let ?g = "\<lambda>(k, p, t). pendingAt now (uuids k, p, t)"
  let ?ts = "times_pill p"
  let ?A = "map ?g (enumerate (length acc) (map (\<lambda>t. (p, t)) ?ts))"
  have occ: "occurrences (p # ps) = map (\<lambda>t. (p, t)) ?ts @ occurrences ps"
    by (simp add: occurrences_def)
  have A: "fold (pushLog uuids now p) ?ts acc = acc @ ?A"
    unfolding fold_pushLog
    by (simp add: enumerate_eq_zip zip_map2 case_prod_unfold)
  have lenA: "length (acc @ ?A) = length acc + length ?ts"
    by simp
  have "fold (\<lambda>pill newLogs. fold (pushLog uuids now pill) (times_pill pill) newLogs) (p # ps) acc
      = fold (\<lambda>pill newLogs. fold (pushLog uuids now pill) (times_pill pill) newLogs) ps (acc @ ?A)"
    using A by simp
  also have "\<dots> = (acc @ ?A) @ map ?g (enumerate (length acc + length ?ts) (occurrences ps))"
    unfolding Cons.IH lenA ..
  also have "\<dots> = acc @ map ?g (enumerate (length acc) (occurrences (p # ps)))"
    unfolding occ enumerate_append_eq by simp
  finally show ?case .
qed

lemma newDailyLogs_eq:
  "newDailyLogs uuids now ps =
     map (pendingAt now) (zip (map uuids [0..<length (occurrences ps)]) (occurrences ps))"
proof -
  have "newDailyLogs uuids now ps =
     map (\<lambda>(k, p, t). pendingAt now (uuids k, p, t)) (enumerate 0 (occurrences ps))"
    by (simp add: newDailyLogs_def fold_pills)
  also have "\<dots> = map (pendingAt now) (zip (map uuids [0..<length (occurrences ps)]) (occurrences ps))"
    by (simp add: enumerate_eq_zip zip_map1 case_prod_unfold)
  finally show ?thesis .
qed

lemma atTimeOfDay_day:
  assumes "hours t < 24" "minutes t < 60"
  shows "dayOf (atTimeOfDay d t) = d"
    and "atTimeOfDay d t mod msPerDay = (int (hours t) * 60 + int (minutes t)) * 60000"
proof -
  let ?o = "(int (hours t) * 60 + int (minutes t)) * 60000"
  have b: "0 \<le> ?o" "?o < 86400000" using assms by auto
  have "(d * 86400000 + ?o) div 86400000 = d"
    using b by (simp add: div_pos_pos_trivial)
  then show "dayOf (atTimeOfDay d t) = d"
    by (simp add: dayOf_def atTimeOfDay_def msPerDay_def)
  have "(d * 86400000 + ?o) mod 86400000 = ?o"
    using b by (simp add: mod_pos_pos_trivial)
  then show "atTimeOfDay d t mod msPerDay = ?o"
    by (simp add: atTimeOfDay_def msPerDay_def)
qed


text \<open>
  C2. When the marker differs from today's date string, the generation pass appends to the
  log, for every pill and every entry of its times and in that order, exactly one new log,
  pending, without \<^const>\<open>takenTime\<close> or \<^const>\<open>snoozedUntil\<close>, scheduled at today's date
  combined with that time of day (on today's calendar day when the time is a 24-hour time),
  with the ids \<^verbatim>\<open>uuidv4()\<close> returned; it keeps the pills and the old logs and sets the
  marker to today. A second pass on the same calendar date changes nothing.
\<close>

theorem generateDailyLogs_once_per_day:
  "(lastScheduleDate s \<noteq> toDateString now \<longrightarrow>
      logs (generateDailyLogs uuids now s) =
        logs s @ map (pendingAt now)
                   (zip (map uuids [0..<length (occurrences (pills s))]) (occurrences (pills s))) \<and>
      length (logs (generateDailyLogs uuids now s))
        = length (logs s) + length (occurrences (pills s)) \<and>
      lastScheduleDate (generateDailyLogs uuids now s) = toDateString now \<and>
      pills (generateDailyLogs uuids now s) = pills s) \<and>
   (dayOf now' = dayOf now \<longrightarrow>
      generateDailyLogs uuids' now' (generateDailyLogs uuids now s)
        = generateDailyLogs uuids now s) \<and>
   (hours t < 24 \<and> minutes t < 60 \<longrightarrow>
      dayOf (scheduledTime (pendingAt now (u, p, t))) = dayOf now \<and>
      scheduledTime (pendingAt now (u, p, t)) mod msPerDay
        = (int (hours t) * 60 + int (minutes t)) * 60000)"
proof -
  have first: "logs (generateDailyLogs uuids now s) =
        logs s @ map (pendingAt now)
                   (zip (map uuids [0..<length (occurrences (pills s))]) (occurrences (pills s))) \<and>
      length (logs (generateDailyLogs uuids now s))
        = length (logs s) + length (occurrences (pills s)) \<and>
      lastScheduleDate (generateDailyLogs uuids now s) = toDateString now \<and>
      pills (generateDailyLogs uuids now s) = pills s"
    if "lastScheduleDate s \<noteq> toDateString now"
  proof -
    have g: "generateDailyLogs uuids now s =
        s\<lparr>logs := logs s @ newDailyLogs uuids now (pills s),
          lastScheduleDate := toDateString now\<rparr>"
      using that by (simp add: generateDailyLogs_def Let_def)
    show ?thesis by (simp add: g newDailyLogs_eq)
  qed
  have marker: "lastScheduleDate (generateDailyLogs uuids now s) = toDateString now"
    by (simp add: generateDailyLogs_def Let_def)
  have second: "generateDailyLogs uuids' now' (generateDailyLogs uuids now s)
        = generateDailyLogs uuids now s"
    if "dayOf now' = dayOf now"
  proof -
    have "toDateString now' = toDateString now"
      using that by (simp add: toDateString_def)
    then show ?thesis
      using marker by (simp add: generateDailyLogs_def [of uuids' now'] Let_def)
  qed
  have third: "dayOf (scheduledTime (pendingAt now (u, p, t))) = dayOf now \<and>
      scheduledTime (pendingAt now (u, p, t)) mod msPerDay
        = (int (hours t) * 60 + int (minutes t)) * 60000"
    if "hours t < 24 \<and> minutes t < 60"
    using that atTimeOfDay_day [of t "dayOf now"] by (simp add: pendingAt_def)
  show ?thesis using first second third by blast
qed

text \<open>Aspirin (09:00, 21:00) and vitamin D (08:30) on 2025-01-20: the first pass at 08:00
  appends three pending logs, the pass at 12:00 of the same day appends none.\<close>

theorem generateDailyLogs_once_per_day_witness:
  "lastScheduleDate twoPills \<noteq> toDateString 1737360000000 \<and>
   map (\<lambda>l. (id_log l, pillId l, scheduledTime l, status l))
       (logs (generateDailyLogs mockUuid 1737360000000 twoPills))
     = [(''mock-uuid-1'', ''pill-1'', 1737363600000, Pending),
        (''mock-uuid-2'', ''pill-1'', 1737406800000, Pending),
        (''mock-uuid-3'', ''pill-2'', 1737361800000, Pending)] \<and>
   lastScheduleDate (generateDailyLogs mockUuid 1737360000000 twoPills) = DateString 20108 \<and>
   dayOf 1737374400000 = dayOf 1737360000000 \<and>
   generateDailyLogs mockUuid 1737374400000 (generateDailyLogs mockUuid 1737360000000 twoPills)
     = generateDailyLogs mockUuid 1737360000000 twoPills \<and>
   dayOf (scheduledTime (pendingAt 1737360000000 (''mock-uuid-1'', aspirin, \<lparr>hours = 9, minutes = 0\<rparr>)))
     = 20108"
  using generateDailyLogs_once_per_day [of twoPills 1737360000000 mockUuid 1737374400000 mockUuid
      "\<lparr>hours = 9, minutes = 0\<rparr>" "''mock-uuid-1''" aspirin]
  by (simp add: twoPills_def aspirin_def vitaminD_def mockUuid_def toDateString_def dayOf_def
      msPerDay_def occurrences_def pendingAt_def atTimeOfDay_def upt_rec)

section \<open>The streak of calculateStreak\<close>

text \<open>
  C3. \<^const>\<open>calculateStreak\<close> equals the reference definition \<^const>\<open>streakSpec\<close>: the
  calendar dates of the entries that are taken and carry a \<^const>\<open>takenTime\<close>, same-day
  entries counted once, the distinct dates in descending order, counted from the most
  recent one backwards while each next date is exactly one day earlier. The empty list
  gives 0, a single taken entry 1, and two taken entries of the same calendar date 1.
\<close>

theorem calculateStreak_refines:
  "calculateStreak ls = streakSpec ls \<and>
   calculateStreak [] = 0 \<and>
   calculateStreak [l\<lparr>status := Taken, takenTime := Some t\<rparr>] = 1 \<and>
   (dayOf t = dayOf u \<longrightarrow>
      calculateStreak [l\<lparr>status := Taken, takenTime := Some t\<rparr>,
                       l'\<lparr>status := Taken, takenTime := Some u\<rparr>] = 1)"
proof -
  have one: "streakSpec [l\<lparr>status := Taken, takenTime := Some t\<rparr>] = 1"
    by (simp add: streakSpec_def takenDates_def distinctDescending_def)
  have two: "streakSpec [l\<lparr>status := Taken, takenTime := Some t\<rparr>,
                         l'\<lparr>status := Taken, takenTime := Some u\<rparr>] = 1"
    if "dayOf t = dayOf u"
    using that by (simp add: streakSpec_def takenDates_def distinctDescending_def)
  have zero: "calculateStreak [] = 0"
    by (simp add: calculateStreak_def)
  show ?thesis
    using one two zero by (simp add: calculateStreak_eq_spec)
qed

theorem calculateStreak_refines_witness:
  "dayOf (jan2025 20 14) = dayOf (jan2025 20 9) \<and>
   calculateStreak [logAt Taken (jan2025 20 14), logAt Taken (jan2025 20 9)] = 1 \<and>
   calculateStreak [logAt Taken (jan2025 20 14)] = 1 \<and>
   streakSpec bestStreakTestLogs = 2 \<and>
   calculateStreak bestStreakTestLogs = 2"
  using calculateStreak_refines [where ls = bestStreakTestLogs and l = "logAt Taken (jan2025 20 14)"
      and t = "jan2025 20 14" and u = "jan2025 20 9" and l' = "logAt Taken (jan2025 20 9)"]
  by (simp add: bestStreakTestLogs_def jan2025_def logAt_def msPerDay_def dayOf_def startOfDay_def
      differenceInDays_def calculateStreak_def sortedTaken_def Let_def)

section \<open>The current streak\<close>




section \<open>The best streak\<close>




section \<open>Entries that are not taken\<close>

text \<open>
  C6 (as amended). Adding an entry that is not taken, anywhere in the list, changes neither
  \<^const>\<open>calculateStreak\<close> nor the \<^const>\<open>streakData\<close> of usePillSchedule; adding a pending or
  snoozed entry does not change what useStreak reports, in any time zone. (A missed entry
  resets the running streak of useStreak.)
\<close>

theorem other_status_keeps_streak:
  "(status x \<noteq> Taken \<longrightarrow>
      calculateStreak (xs @ x # ys) = calculateStreak (xs @ ys) \<and>
      streakData (xs @ x # ys) = streakData (xs @ ys)) \<and>
   (status x = Pending \<or> status x = Snoozed \<longrightarrow>
      useStreak zone now (xs @ x # ys) = useStreak zone now (xs @ ys))"
  using calculateStreak_insert streakData_insert useStreak_insert by blast

text \<open>A missed, then a pending entry put between two taken days.\<close>

theorem other_status_keeps_streak_witness:
  "status (logAt Missed (jan2025 20 21)) \<noteq> Taken \<and>
   calculateStreak [logAt Taken (jan2025 19 9), logAt Missed (jan2025 20 21), logAt Taken (jan2025 20 9)] = 2 \<and>
   calculateStreak [logAt Taken (jan2025 19 9), logAt Taken (jan2025 20 9)] = 2 \<and>
   status (logAt Pending (jan2025 20 21)) = Pending \<and>
   current (useStreak berlin2025 (jan2025 20 22)
     [logAt Taken (jan2025 19 9), logAt Pending (jan2025 20 21), logAt Taken (jan2025 20 9)]) = 2 \<and>
   current (useStreak berlin2025 (jan2025 20 22) [logAt Taken (jan2025 19 9), logAt Taken (jan2025 20 9)]) = 2"
  using other_status_keeps_streak [of "logAt Missed (jan2025 20 21)" "[logAt Taken (jan2025 19 9)]"
      "[logAt Taken (jan2025 20 9)]" berlin2025 "jan2025 20 22"]
    other_status_keeps_streak [of "logAt Pending (jan2025 20 21)" "[logAt Taken (jan2025 19 9)]"
      "[logAt Taken (jan2025 20 9)]" berlin2025 "jan2025 20 22"]
  by (simp add: berlin2025_def getTime_def jan2025_def logAt_def msPerDay_def dayOf_def startOfDay_def
      differenceInDays_def calculateStreak_def sortedTaken_def Let_def
      useStreak_def streakStep_def streakPass_def streakVars0_def lastTakenOf_def)

text \<open>An entry taken today, then one missed tonight.\<close>

theorem missed_log_resets_streak_counterexample:
  "current (useStreak berlin2025 (jan2025 20 22) [logAt Taken (jan2025 20 9)]) = 1 \<and>
   current (useStreak berlin2025 (jan2025 20 22) [logAt Taken (jan2025 20 9), logAt Missed (jan2025 20 21)]) = 0"
  by (simp add: berlin2025_def getTime_def jan2025_def logAt_def msPerDay_def dayOf_def startOfDay_def
      differenceInDays_def calculateStreak_def sortedTaken_def Let_def
      useStreak_def streakStep_def streakPass_def streakVars0_def lastTakenOf_def)

section \<open>The compliance heatmap\<close>

text \<open>What every cell counts, and what the window shows on a host at UTC: the cell of the
  day \<open>i\<close> days before today counts the taken and the missed entries scheduled on that
  day.\<close>

lemma heatmapData_nth:
  "k < n \<Longrightarrow> heatmapData tz now ls n ! k = dayData tz ls (startOfDay now) (n - 1 - k)"
  by (simp add: heatmapData_def rev_nth)

lemma toISODate_utc: "toISODate 0 d = dayOf d"
  by (simp add: toISODate_def dayOf_def)

lemma dayOf_days_before: "dayOf (startOfDay now - int i * msPerDay) = dayOf now - int i"
proof -
  have "(dayOf now * msPerDay - int i * msPerDay) div msPerDay = dayOf now - int i"
    by (rule midnights_div)
  then show ?thesis by (simp add: startOfDay_def dayOf_def [of "_ - _"])
qed

lemma dayData_counts:
  "taken (dayData tz ls today i)
     = length (filter (\<lambda>l. toISODate tz (scheduledTime l) = dateStr (dayData tz ls today i)
                          \<and> status l = Taken) ls) \<and>
   missed (dayData tz ls today i)
     = length (filter (\<lambda>l. toISODate tz (scheduledTime l) = dateStr (dayData tz ls today i)
                          \<and> status l = Missed) ls) \<and>
   total (dayData tz ls today i) = taken (dayData tz ls today i) + missed (dayData tz ls today i) \<and>
   compliance (dayData tz ls today i)
     = (if total (dayData tz ls today i) = 0 then 0
        else of_nat (taken (dayData tz ls today i)) / of_nat (total (dayData tz ls today i)) * 100) \<and>
   hasData (dayData tz ls today i) = (total (dayData tz ls today i) \<noteq> 0) \<and>
   getColorClass 0 False \<noteq> getColorClass 0 True"
  by (simp add: dayData_def Let_def hasData_def getColorClass_def conj_commute)

lemma heatmap_cell_at_utc:
  assumes "i < n"
  shows "dayOf (date (heatmapData 0 now ls n ! (n - 1 - i))) = dayOf now - int i"
    and "taken (heatmapData 0 now ls n ! (n - 1 - i))
           = length (filter (\<lambda>l. dayOf (scheduledTime l) = dayOf now - int i \<and> status l = Taken) ls)"
    and "missed (heatmapData 0 now ls n ! (n - 1 - i))
           = length (filter (\<lambda>l. dayOf (scheduledTime l) = dayOf now - int i \<and> status l = Missed) ls)"
proof -
  have k: "n - 1 - i < n" "n - 1 - (n - 1 - i) = i" using assms by auto
  have c: "heatmapData 0 now ls n ! (n - 1 - i) = dayData 0 ls (startOfDay now) i"
    using heatmapData_nth [OF k(1)] k(2) by simp
  show "dayOf (date (heatmapData 0 now ls n ! (n - 1 - i))) = dayOf now - int i"
    unfolding c by (simp add: dayData_def Let_def dayOf_days_before)
  have d: "dateStr (dayData 0 ls (startOfDay now) i) = dayOf now - int i"
    by (simp add: dayData_def Let_def toISODate_utc dayOf_days_before)
  show "taken (heatmapData 0 now ls n ! (n - 1 - i))
           = length (filter (\<lambda>l. dayOf (scheduledTime l) = dayOf now - int i \<and> status l = Taken) ls)"
    unfolding c using dayData_counts [of 0 ls "startOfDay now" i] by (simp add: d toISODate_utc)
  show "missed (heatmapData 0 now ls n ! (n - 1 - i))
           = length (filter (\<lambda>l. dayOf (scheduledTime l) = dayOf now - int i \<and> status l = Missed) ls)"
    unfolding c using dayData_counts [of 0 ls "startOfDay now" i] by (simp add: d toISODate_utc)
qed

lemma overallCompliance_ratio:
  "overallCompliance ls =
     (if length (filter (\<lambda>l. status l = Taken) ls) + length (filter (\<lambda>l. status l = Missed) ls) = 0
      then 0
      else of_nat (length (filter (\<lambda>l. status l = Taken) ls))
           / of_nat (length (filter (\<lambda>l. status l = Taken) ls)
                     + length (filter (\<lambda>l. status l = Missed) ls)) * 100)"
proof -
  have e: "length (filter (\<lambda>l. status l = Taken \<or> status l = Missed) ls)
      = length (filter (\<lambda>l. status l = Taken) ls) + length (filter (\<lambda>l. status l = Missed) ls)"
    by (induction ls) auto
  show ?thesis unfolding overallCompliance_def Let_def e by simp
qed

text \<open>
  C8 (the code at the failing input). On a host one hour east of UTC, at noon of 20 January
  with an entry taken today at 09:00 and an entry missed yesterday at 09:00: the last cell
  of the window is today's local midnight, but its day string is the UTC date of that
  instant, 19 January, so the cell counts yesterday's missed entry and none of today's
  and shows 0 per cent. On a host at UTC the same cell shows 100 per cent.
\<close>

theorem heatmap_utc_day_shift:
  "dayOf (scheduledTime (logAt Taken (jan2025 20 9))) = dayOf (jan2025 20 12) \<and>
   date (last (heatmapData 3600000 (jan2025 20 12)
           [logAt Taken (jan2025 20 9), logAt Missed (jan2025 19 9)] 30)) = startOfDay (jan2025 20 12) \<and>
   taken (last (heatmapData 3600000 (jan2025 20 12)
           [logAt Taken (jan2025 20 9), logAt Missed (jan2025 19 9)] 30)) = 0 \<and>
   missed (last (heatmapData 3600000 (jan2025 20 12)
           [logAt Taken (jan2025 20 9), logAt Missed (jan2025 19 9)] 30)) = 1 \<and>
   compliance (last (heatmapData 3600000 (jan2025 20 12)
           [logAt Taken (jan2025 20 9), logAt Missed (jan2025 19 9)] 30)) = 0 \<and>
   compliance (last (heatmapData 0 (jan2025 20 12)
           [logAt Taken (jan2025 20 9), logAt Missed (jan2025 19 9)] 30)) = 100"
  by code_simp


end
